theory Spec2Isabelle
  imports Main
begin

section \<open>The class Selector (src/selector.js)\<close>

text \<open>
  The keys of the table \<^verbatim>\<open>selectorsWeight\<close>: the empty string (the default of the
  parameter \<^verbatim>\<open>type\<close> of \<^verbatim>\<open>add\<close>) and the six kinds of selector parts.
\<close>

datatype kind = Default | Element | Id | Class | Attribute | PseudoClass | PseudoElement

fun selectorsWeight :: "kind \<Rightarrow> nat" where
  "selectorsWeight Default = 0"
| "selectorsWeight Element = 1"
| "selectorsWeight Id = 10"
| "selectorsWeight Class = 20"
| "selectorsWeight Attribute = 30"
| "selectorsWeight PseudoClass = 40"
| "selectorsWeight PseudoElement = 50"

text \<open>A thrown \<^verbatim>\<open>new Error(message)\<close>.\<close>

datatype error = Error string

text \<open>
  The mutable fields of an instance. The table \<^verbatim>\<open>selectorsWeight\<close> is never
  assigned after the constructor, so it is the function above.
\<close>

record Selector =
  selectors :: "string list"
  isIdExist :: bool
  isElExist :: bool
  isPseudoElExist :: bool
  selectorsTypes :: "nat list"

definition constructor :: Selector where
  "constructor =
     \<lparr>selectors = [], isIdExist = False, isElExist = False, isPseudoElExist = False,
      selectorsTypes = []\<rparr>"

text \<open>
  A method takes the state of \<^verbatim>\<open>this\<close> and returns its outcome (\<open>Inl\<close> for a thrown
  error) together with the state of \<^verbatim>\<open>this\<close> at the return or at the throw.
\<close>

definition isRightOrder :: "kind \<Rightarrow> Selector \<Rightarrow> (error + bool) \<times> Selector" where
  "isRightOrder type s =
     (if length (selectorsTypes s) = 0 then (Inr True, s)
      else
        let prevVal = selectorsTypes s ! (length (selectorsTypes s) - 1);
            currVal = selectorsWeight type
        in if currVal < prevVal
           then (Inl (Error ''Selector parts should be arranged in the following order: element, id, class, attribute, pseudo-class, pseudo-element''), s)
           else (Inr True, s))"

definition add :: "string \<Rightarrow> kind \<Rightarrow> Selector \<Rightarrow> (error + unit) \<times> Selector" where
  "add val type s =
     (case isRightOrder type s of
        (Inl e, s1) \<Rightarrow> (Inl e, s1)
      | (Inr ok, s1) \<Rightarrow>
          (if ok
           then (Inr (),
                 s1\<lparr>selectors := selectors s1 @ [val],
                    selectorsTypes := selectorsTypes s1 @ [selectorsWeight type]\<rparr>)
           else (Inr (), s1)))"

text \<open>\<^verbatim>\<open>join('')\<close> of an array of strings is their concatenation.\<close>

definition stringify :: "Selector \<Rightarrow> string \<times> Selector" where
  "stringify s =
     (let selectorStr = concat (selectors s)
      in (selectorStr,
          s\<lparr>selectors := [], isIdExist := False, isElExist := False,
            isPseudoElExist := False\<rparr>))"

section \<open>The class SelectorElem, which extends Selector\<close>

text \<open>
  SelectorElem adds no field. Each method returns \<^verbatim>\<open>this\<close>; here it returns the unit
  value and the state of \<^verbatim>\<open>this\<close>. A template literal concatenates its pieces.
\<close>

definition element :: "string \<Rightarrow> Selector \<Rightarrow> (error + unit) \<times> Selector" where
  "element val s =
     (if \<not> isElExist s then
        (case add val Element s of
           (Inl e, s1) \<Rightarrow> (Inl e, s1)
         | (Inr u, s1) \<Rightarrow> (Inr (), s1\<lparr>isElExist := True\<rparr>))
      else (Inl (Error ''Element, id and pseudo-element should not occur more then one time inside the selector''), s))"

definition id_sel :: "string \<Rightarrow> Selector \<Rightarrow> (error + unit) \<times> Selector" where
  "id_sel val s =
     (if \<not> isIdExist s then
        (case add (''#'' @ val) Id s of
           (Inl e, s1) \<Rightarrow> (Inl e, s1)
         | (Inr u, s1) \<Rightarrow> (Inr (), s1\<lparr>isIdExist := True\<rparr>))
      else (Inl (Error ''Element, id and pseudo-element should not occur more then one time inside the selector''), s))"

definition class_sel :: "string \<Rightarrow> Selector \<Rightarrow> (error + unit) \<times> Selector" where
  "class_sel val s = add (''.'' @ val) Class s"

definition attr :: "string \<Rightarrow> Selector \<Rightarrow> (error + unit) \<times> Selector" where
  "attr val s = add (''['' @ val @ '']'') Attribute s"

definition pseudoClass :: "string \<Rightarrow> Selector \<Rightarrow> (error + unit) \<times> Selector" where
  "pseudoClass val s = add ('':'' @ val) PseudoClass s"

definition pseudoElement :: "string \<Rightarrow> Selector \<Rightarrow> (error + unit) \<times> Selector" where
  "pseudoElement val s =
     (if \<not> isPseudoElExist s then
        (case add (''::'' @ val) PseudoElement s of
           (Inl e, s1) \<Rightarrow> (Inl e, s1)
         | (Inr u, s1) \<Rightarrow> (Inr (), s1\<lparr>isPseudoElExist := True\<rparr>))
      else (Inl (Error ''Element, id and pseudo-element should not occur more then one time inside the selector''), s))"

section \<open>Call sequences on one builder\<close>

text \<open>The six fragment methods by name, and a call of one of them with its argument.\<close>

datatype fragment_method = MElement | MId | MClass | MAttr | MPseudoClass | MPseudoElement

fun call :: "fragment_method \<Rightarrow> string \<Rightarrow> Selector \<Rightarrow> (error + unit) \<times> Selector" where
  "call MElement v s = element v s"
| "call MId v s = id_sel v s"
| "call MClass v s = class_sel v s"
| "call MAttr v s = attr v s"
| "call MPseudoClass v s = pseudoClass v s"
| "call MPseudoElement v s = pseudoElement v s"

text \<open>
  A chain \<^verbatim>\<open>b.m1(v1).m2(v2)...\<close>: the first throw ends it, and the builder is left as
  the throwing call left it.
\<close>

fun chain :: "(fragment_method \<times> string) list \<Rightarrow> Selector \<Rightarrow> (error + unit) \<times> Selector" where
  "chain [] s = (Inr (), s)"
| "chain ((m, v) # cs) s =
     (case call m v s of
        (Inl e, s1) \<Rightarrow> (Inl e, s1)
      | (Inr u, s1) \<Rightarrow> chain cs s1)"

text \<open>
  Any use of one builder object: fragment calls, renders and direct calls of the inherited
  \<^verbatim>\<open>add\<close>, where the caller may catch a thrown error and go on with the same object.
  \<open>builder_after ops\<close> is the state of a builder created by \<^verbatim>\<open>new SelectorElem()\<close>
  after the operations \<open>ops\<close>.
\<close>

datatype operation = Call fragment_method string | Stringify | Add string kind

fun perform :: "operation \<Rightarrow> Selector \<Rightarrow> Selector" where
  "perform (Call m v) s = snd (call m v s)"
| "perform Stringify s = snd (stringify s)"
| "perform (Add v k) s = snd (add v k s)"

definition builder_after :: "operation list \<Rightarrow> Selector" where
  "builder_after ops = foldl (\<lambda>s x. perform x s) constructor ops"

text \<open>
  The vocabulary of the specification: the kind a method appends under, the text it
  appends, and the flag it guards (none for class, attr and pseudoClass).
\<close>

fun kind_of :: "fragment_method \<Rightarrow> kind" where
  "kind_of MElement = Element"
| "kind_of MId = Id"
| "kind_of MClass = Class"
| "kind_of MAttr = Attribute"
| "kind_of MPseudoClass = PseudoClass"
| "kind_of MPseudoElement = PseudoElement"

fun formatted :: "fragment_method \<Rightarrow> string \<Rightarrow> string" where
  "formatted MElement v = v"
| "formatted MId v = ''#'' @ v"
| "formatted MClass v = ''.'' @ v"
| "formatted MAttr v = ''['' @ v @ '']''"
| "formatted MPseudoClass v = '':'' @ v"
| "formatted MPseudoElement v = ''::'' @ v"

fun singleton :: "fragment_method \<Rightarrow> bool" where
  "singleton MElement = True"
| "singleton MId = True"
| "singleton MPseudoElement = True"
| "singleton m = False"

fun flag :: "fragment_method \<Rightarrow> Selector \<Rightarrow> bool" where
  "flag MElement s = isElExist s"
| "flag MId s = isIdExist s"
| "flag MPseudoElement s = isPseudoElExist s"
| "flag m s = False"

fun set_flag :: "fragment_method \<Rightarrow> Selector \<Rightarrow> Selector" where
  "set_flag MElement s = s\<lparr>isElExist := True\<rparr>"
| "set_flag MId s = s\<lparr>isIdExist := True\<rparr>"
| "set_flag MPseudoElement s = s\<lparr>isPseudoElExist := True\<rparr>"
| "set_flag m s = s"

section \<open>Builder objects in a store\<close>

text \<open>
  \<^verbatim>\<open>combine\<close> receives two references, which may be one and the same object, and
  mutates both. The store is the list of all SelectorElem objects created so far; a
  reference is an index into it, valid when it is below the length of the list. A
  reference is only ever obtained from \<^verbatim>\<open>new SelectorElem()\<close>, so the methods are
  applied at valid references only.
\<close>

type_synonym reference = nat
type_synonym store = "Selector list"

definition new_SelectorElem :: "store \<Rightarrow> reference \<times> store" where
  "new_SelectorElem h = (length h, h @ [constructor])"

text \<open>
  A fragment method or \<^verbatim>\<open>add\<close> called on the object at \<open>r\<close>: the object is updated
  in place and, unless the call throws, the reference itself is returned
  (\<^verbatim>\<open>return this\<close>).
\<close>

definition invoke ::
  "reference \<Rightarrow> (Selector \<Rightarrow> (error + unit) \<times> Selector) \<Rightarrow> store \<Rightarrow> (error + reference) \<times> store" where
  "invoke r f h =
     (case f (h ! r) of
        (Inl e, s1) \<Rightarrow> (Inl e, h[r := s1])
      | (Inr u, s1) \<Rightarrow> (Inr r, h[r := s1]))"

definition stringify_at :: "reference \<Rightarrow> store \<Rightarrow> string \<times> store" where
  "stringify_at r h = (case stringify (h ! r) of (str, s1) \<Rightarrow> (str, h[r := s1]))"

subsection \<open>The facade cssSelectorBuilder\<close>

definition cssSelectorBuilder_element :: "string \<Rightarrow> store \<Rightarrow> (error + reference) \<times> store" where
  "cssSelectorBuilder_element val h =
     (case new_SelectorElem h of (r, h1) \<Rightarrow> invoke r (element val) h1)"

definition cssSelectorBuilder_id :: "string \<Rightarrow> store \<Rightarrow> (error + reference) \<times> store" where
  "cssSelectorBuilder_id val h =
     (case new_SelectorElem h of (r, h1) \<Rightarrow> invoke r (id_sel val) h1)"

definition cssSelectorBuilder_class :: "string \<Rightarrow> store \<Rightarrow> (error + reference) \<times> store" where
  "cssSelectorBuilder_class val h =
     (case new_SelectorElem h of (r, h1) \<Rightarrow> invoke r (class_sel val) h1)"

definition cssSelectorBuilder_attr :: "string \<Rightarrow> store \<Rightarrow> (error + reference) \<times> store" where
  "cssSelectorBuilder_attr val h =
     (case new_SelectorElem h of (r, h1) \<Rightarrow> invoke r (attr val) h1)"

definition cssSelectorBuilder_pseudoClass :: "string \<Rightarrow> store \<Rightarrow> (error + reference) \<times> store" where
  "cssSelectorBuilder_pseudoClass val h =
     (case new_SelectorElem h of (r, h1) \<Rightarrow> invoke r (pseudoClass val) h1)"

definition cssSelectorBuilder_pseudoElement :: "string \<Rightarrow> store \<Rightarrow> (error + reference) \<times> store" where
  "cssSelectorBuilder_pseudoElement val h =
     (case new_SelectorElem h of (r, h1) \<Rightarrow> invoke r (pseudoElement val) h1)"

definition combine :: "reference \<Rightarrow> string \<Rightarrow> reference \<Rightarrow> store \<Rightarrow> (error + reference) \<times> store" where
  "combine selector1 combinator selector2 h =
     (case stringify_at selector1 h of (str1, h1) \<Rightarrow>
      case stringify_at selector2 h1 of (str2, h2) \<Rightarrow>
      case new_SelectorElem h2 of (r, h3) \<Rightarrow>
        invoke r (add (str1 @ '' '' @ combinator @ '' '' @ str2) Default) h3)"

subsection \<open>Expressions over the store\<close>

text \<open>
  \<open>and_then p f\<close> evaluates \<open>p\<close> and passes its value to \<open>f\<close>; a throw in \<open>p\<close> ends the
  evaluation. \<open>rendered r\<close> is the final \<^verbatim>\<open>.stringify()\<close> of an expression.
\<close>

definition and_then ::
  "(store \<Rightarrow> (error + 'a) \<times> store) \<Rightarrow> ('a \<Rightarrow> store \<Rightarrow> (error + 'b) \<times> store) \<Rightarrow>
   store \<Rightarrow> (error + 'b) \<times> store" where
  "and_then p f h = (case p h of (Inl e, h1) \<Rightarrow> (Inl e, h1) | (Inr a, h1) \<Rightarrow> f a h1)"

definition rendered :: "reference \<Rightarrow> store \<Rightarrow> (error + string) \<times> store" where
  "rendered r h = (case stringify_at r h of (str, h1) \<Rightarrow> (Inr str, h1))"

text \<open>
  The nested example of the documentation comment of the builder. JavaScript evaluates
  the arguments of a call from left to right, before the call.
\<close>

definition nested_example :: "store \<Rightarrow> (error + string) \<times> store" where
  "nested_example =
     and_then
       (and_then (and_then (and_then (cssSelectorBuilder_element ''div'')
          (\<lambda>r. invoke r (id_sel ''main'')))
          (\<lambda>r. invoke r (class_sel ''container'')))
          (\<lambda>r. invoke r (class_sel ''draggable'')))
       (\<lambda>divSel.
          and_then
            (and_then
               (and_then (cssSelectorBuilder_element ''table'')
                  (\<lambda>r. invoke r (id_sel ''data'')))
               (\<lambda>tableSel.
                  and_then
                    (and_then
                       (and_then (cssSelectorBuilder_element ''tr'')
                          (\<lambda>r. invoke r (pseudoClass ''nth-of-type(even)'')))
                       (\<lambda>trSel.
                          and_then
                            (and_then (cssSelectorBuilder_element ''td'')
                               (\<lambda>r. invoke r (pseudoClass ''nth-of-type(even)'')))
                            (\<lambda>tdSel. combine trSel '' '' tdSel)))
                    (\<lambda>inner. combine tableSel ''~'' inner)))
            (\<lambda>right. and_then (combine divSel ''+'' right) rendered))"

definition png_example :: "store \<Rightarrow> (error + string) \<times> store" where
  "png_example =
     and_then
       (and_then (and_then (cssSelectorBuilder_element ''a'')
          (\<lambda>r. invoke r (attr (''href$='' @ [CHR 0x22] @ ''.png'' @ [CHR 0x22]))))
          (\<lambda>r. invoke r (pseudoClass ''focus'')))
       rendered"

definition main_example :: "store \<Rightarrow> (error + string) \<times> store" where
  "main_example =
     and_then
       (and_then (and_then (cssSelectorBuilder_id ''main'')
          (\<lambda>r. invoke r (class_sel ''container'')))
          (\<lambda>r. invoke r (class_sel ''editable'')))
       rendered"

section \<open>What add and the fragment methods do\<close>

lemma add_appends:
  "selectorsTypes s = [] \<or> last (selectorsTypes s) \<le> selectorsWeight k \<Longrightarrow>
   add v k s =
     (Inr (), s\<lparr>selectors := selectors s @ [v],
                selectorsTypes := selectorsTypes s @ [selectorsWeight k]\<rparr>)"
proof (cases "selectorsTypes s = []")
  case True
  then show ?thesis by (simp add: add_def isRightOrder_def)
next
  case False
  assume "selectorsTypes s = [] \<or> last (selectorsTypes s) \<le> selectorsWeight k"
  with False have "\<not> selectorsWeight k < last (selectorsTypes s)" by auto
  with False show ?thesis
    by (simp add: add_def isRightOrder_def Let_def last_conv_nth)
qed

lemma add_throws:
  "selectorsTypes s \<noteq> [] \<Longrightarrow> selectorsWeight k < last (selectorsTypes s) \<Longrightarrow>
   add v k s =
     (Inl (Error ''Selector parts should be arranged in the following order: element, id, class, attribute, pseudo-class, pseudo-element''), s)"
  by (simp add: add_def isRightOrder_def Let_def last_conv_nth)

lemma call_appends:
  "\<not> flag m s \<Longrightarrow>
   selectorsTypes s = [] \<or> last (selectorsTypes s) \<le> selectorsWeight (kind_of m) \<Longrightarrow>
   call m v s =
     (Inr (), set_flag m (s\<lparr>selectors := selectors s @ [formatted m v],
                selectorsTypes := selectorsTypes s @ [selectorsWeight (kind_of m)]\<rparr>))"
  by (cases m)
     (simp_all add: element_def id_sel_def class_sel_def attr_def pseudoClass_def
        pseudoElement_def add_appends)

lemma call_order_error:
  "\<not> flag m s \<Longrightarrow> selectorsTypes s \<noteq> [] \<Longrightarrow>
   selectorsWeight (kind_of m) < last (selectorsTypes s) \<Longrightarrow>
   call m v s =
     (Inl (Error ''Selector parts should be arranged in the following order: element, id, class, attribute, pseudo-class, pseudo-element''), s)"
  by (cases m)
     (simp_all add: element_def id_sel_def class_sel_def attr_def pseudoClass_def
        pseudoElement_def add_throws)

lemma call_duplicate_error:
  "flag m s \<Longrightarrow>
   call m v s =
     (Inl (Error ''Element, id and pseudo-element should not occur more then one time inside the selector''), s)"
  by (cases m) (simp_all add: element_def id_sel_def pseudoElement_def)

text \<open>The three outcomes of a fragment call, by the state it is called in.\<close>

lemma call_cases:
  obtains (dup) "flag m s"
  | (low) "\<not> flag m s" "selectorsTypes s \<noteq> []"
      "selectorsWeight (kind_of m) < last (selectorsTypes s)"
  | (ok) "\<not> flag m s"
      "selectorsTypes s = [] \<or> last (selectorsTypes s) \<le> selectorsWeight (kind_of m)"
  by fastforce

lemma flag_only_singleton: "\<not> singleton m \<Longrightarrow> \<not> flag m s"
  by (cases m) simp_all

lemma set_flag_only_singleton: "\<not> singleton m \<Longrightarrow> set_flag m s = s"
  by (cases m) simp_all

lemma set_flag_fields:
  "selectors (set_flag m s) = selectors s"
  "selectorsTypes (set_flag m s) = selectorsTypes s"
  by (cases m; simp)+

lemma flag_set_flag: "singleton m \<Longrightarrow> flag m (set_flag m s)"
  by (cases m) simp_all

lemma flag_kept_by_set_flag: "flag m s \<Longrightarrow> flag m (set_flag m' s)"
  by (cases m; cases m'; simp)

lemma flag_append_fields:
  "flag m (s\<lparr>selectors := xs, selectorsTypes := ts\<rparr>) = flag m s"
  by (cases m) simp_all

section \<open>Every fragment has a recorded rank\<close>

lemma perform_lengths:
  "length (selectors s) \<le> length (selectorsTypes s) \<Longrightarrow>
   length (selectors (perform x s)) \<le> length (selectorsTypes (perform x s))"
proof (cases x)
  case (Call m v)
  assume le: "length (selectors s) \<le> length (selectorsTypes s)"
  show ?thesis
  proof (cases m s rule: call_cases)
    case dup
    with le Call show ?thesis by (simp add: call_duplicate_error)
  next
    case low
    with le Call show ?thesis by (simp add: call_order_error)
  next
    case ok
    with Call have "perform x s =
        set_flag m (s\<lparr>selectors := selectors s @ [formatted m v],
          selectorsTypes := selectorsTypes s @ [selectorsWeight (kind_of m)]\<rparr>)"
      by (simp add: call_appends del: call.simps)
    with le show ?thesis by (simp add: set_flag_fields)
  qed
next
  case Stringify
  assume "length (selectors s) \<le> length (selectorsTypes s)"
  with Stringify show ?thesis by (simp add: stringify_def)
next
  case (Add v k)
  assume le: "length (selectors s) \<le> length (selectorsTypes s)"
  show ?thesis
  proof (cases "selectorsTypes s \<noteq> [] \<and> selectorsWeight k < last (selectorsTypes s)")
    case True
    with le Add show ?thesis by (simp add: add_throws)
  next
    case False
    then have "selectorsTypes s = [] \<or> last (selectorsTypes s) \<le> selectorsWeight k"
      by auto
    with le Add show ?thesis by (simp add: add_appends)
  qed
qed

lemma foldl_perform_lengths:
  "length (selectors s) \<le> length (selectorsTypes s) \<Longrightarrow>
   length (selectors (foldl (\<lambda>t x. perform x t) s ops))
     \<le> length (selectorsTypes (foldl (\<lambda>t x. perform x t) s ops))"
  by (induction ops arbitrary: s) (simp_all add: perform_lengths)

lemma builder_after_lengths:
  "length (selectors (builder_after ops)) \<le> length (selectorsTypes (builder_after ops))"
  unfolding builder_after_def by (rule foldl_perform_lengths) (simp add: constructor_def)

section \<open>The order check\<close>

text \<open>
  C1, as stated, fails on the code. A singleton method (element, id, pseudoElement) reads
  its own flag before it calls \<^verbatim>\<open>add\<close>, so when that flag is set the call throws
  the duplicate error whatever the ranks are. After \<^verbatim>\<open>element('a').class('b')\<close> the
  fragments are non-empty and the rank 1 of element is below the last rank 20, yet
  \<^verbatim>\<open>.element('c')\<close> throws the duplicate message, not the order message; and after
  \<^verbatim>\<open>element('a')\<close> the rank of a second \<^verbatim>\<open>.element('b')\<close> equals the last rank,
  yet the call does not succeed.
\<close>

theorem C1_counterexample:
  "chain [(MElement, ''a''), (MClass, ''b'')] constructor =
     (Inr (), \<lparr>selectors = [''a'', ''.b''], isIdExist = False, isElExist = True,
               isPseudoElExist = False, selectorsTypes = [1, 20]\<rparr>)
   \<and> selectorsWeight (kind_of MElement) < 20
   \<and> fst (chain [(MElement, ''a''), (MClass, ''b''), (MElement, ''c'')] constructor) =
       Inl (Error ''Element, id and pseudo-element should not occur more then one time inside the selector'')
   \<and> fst (chain [(MElement, ''a''), (MClass, ''b''), (MElement, ''c'')] constructor) \<noteq>
       Inl (Error ''Selector parts should be arranged in the following order: element, id, class, attribute, pseudo-class, pseudo-element'')
   \<and> chain [(MElement, ''a'')] constructor =
     (Inr (), \<lparr>selectors = [''a''], isIdExist = False, isElExist = True,
               isPseudoElExist = False, selectorsTypes = [1]\<rparr>)
   \<and> selectorsWeight (kind_of MElement) = 1
   \<and> fst (chain [(MElement, ''a''), (MElement, ''b'')] constructor) =
       Inl (Error ''Element, id and pseudo-element should not occur more then one time inside the selector'')"
  by (simp add: constructor_def element_def class_sel_def add_def isRightOrder_def)

text \<open>
  C1, amended: for every builder whose fragment sequence is non-empty (any state a builder
  reaches from its construction by fragment calls, renders and calls of add, caught throws
  included), and every fragment method whose own singleton flag is not set (class, attr and
  pseudoClass have none): the rank sequence is non-empty; if the rank of the method's kind
  is strictly less than the last recorded rank, the call throws the error with the message
  "Selector parts should be arranged in the following order: element, id, class,
  attribute, pseudo-class, pseudo-element" and leaves fragments, ranks and flags as they
  were; otherwise the call succeeds and appends the formatted fragment and its rank (and
  sets the flag of a singleton method).
\<close>

theorem C1_order_check_when_flag_clear:
  assumes "selectors (builder_after ops) \<noteq> []"
    and "\<not> flag m (builder_after ops)"
  shows "let s = builder_after ops; r = selectorsWeight (kind_of m) in
     selectorsTypes s \<noteq> [] \<and>
     (if r < last (selectorsTypes s)
      then call m v s =
        (Inl (Error ''Selector parts should be arranged in the following order: element, id, class, attribute, pseudo-class, pseudo-element''), s)
      else call m v s =
        (Inr (), set_flag m (s\<lparr>selectors := selectors s @ [formatted m v],
                                 selectorsTypes := selectorsTypes s @ [r]\<rparr>)))"
proof -
  from assms(1) builder_after_lengths [of ops]
  have ne: "selectorsTypes (builder_after ops) \<noteq> []" by auto
  show ?thesis
  proof (cases "selectorsWeight (kind_of m) < last (selectorsTypes (builder_after ops))")
    case True
    with ne assms(2) show ?thesis by (simp add: call_order_error)
  next
    case False
    then have "last (selectorsTypes (builder_after ops)) \<le> selectorsWeight (kind_of m)"
      by simp
    with ne assms(2) False show ?thesis by (simp add: call_appends)
  qed
qed

theorem C1_witness:
  "selectors (builder_after [Call MElement ''div'', Call MAttr ''href'']) = [''div'', ''[href]'']
   \<and> call MId ''x'' (builder_after [Call MElement ''div'', Call MAttr ''href'']) =
       (Inl (Error ''Selector parts should be arranged in the following order: element, id, class, attribute, pseudo-class, pseudo-element''),
        \<lparr>selectors = [''div'', ''[href]''], isIdExist = False, isElExist = True,
         isPseudoElExist = False, selectorsTypes = [1, 30]\<rparr>)
   \<and> call MPseudoClass ''hover'' (builder_after [Call MElement ''div'', Call MAttr ''href'']) =
       (Inr (),
        \<lparr>selectors = [''div'', ''[href]'', '':hover''], isIdExist = False, isElExist = True,
         isPseudoElExist = False, selectorsTypes = [1, 30, 40]\<rparr>)"
proof -
  have s: "builder_after [Call MElement ''div'', Call MAttr ''href''] =
    \<lparr>selectors = [''div'', ''[href]''], isIdExist = False, isElExist = True,
     isPseudoElExist = False, selectorsTypes = [1, 30]\<rparr>"
    by (simp add: builder_after_def constructor_def element_def attr_def add_def
        isRightOrder_def)
  have a: "selectors (builder_after [Call MElement ''div'', Call MAttr ''href'']) \<noteq> []"
    by (simp add: s)
  have b: "\<not> flag MId (builder_after [Call MElement ''div'', Call MAttr ''href''])"
    by (simp add: s)
  have c: "\<not> flag MPseudoClass (builder_after [Call MElement ''div'', Call MAttr ''href''])"
    by simp
  show ?thesis
    using C1_order_check_when_flag_clear [OF a b, of "''x''"]
      C1_order_check_when_flag_clear [OF a c, of "''hover''"]
    by (simp add: s Let_def)
qed

section \<open>The singleton check\<close>

lemma perform_keeps_flag:
  "flag m s \<Longrightarrow> x \<noteq> Stringify \<Longrightarrow> flag m (perform x s)"
proof (cases x)
  case (Call m' v)
  assume f: "flag m s"
  show ?thesis
  proof (cases m' s rule: call_cases)
    case dup
    with f Call show ?thesis by (simp add: call_duplicate_error)
  next
    case low
    with f Call show ?thesis by (simp add: call_order_error)
  next
    case ok
    with Call have "perform x s =
        set_flag m' (s\<lparr>selectors := selectors s @ [formatted m' v],
          selectorsTypes := selectorsTypes s @ [selectorsWeight (kind_of m')]\<rparr>)"
      by (simp add: call_appends del: call.simps)
    with f show ?thesis by (simp add: flag_kept_by_set_flag flag_append_fields)
  qed
next
  case Stringify
  assume "x \<noteq> Stringify"
  with Stringify show ?thesis by simp
next
  case (Add v k)
  assume f: "flag m s"
  show ?thesis
  proof (cases "selectorsTypes s \<noteq> [] \<and> selectorsWeight k < last (selectorsTypes s)")
    case True
    with f Add show ?thesis by (simp add: add_throws)
  next
    case False
    then have "selectorsTypes s = [] \<or> last (selectorsTypes s) \<le> selectorsWeight k"
      by auto
    with f Add show ?thesis by (simp add: add_appends flag_append_fields)
  qed
qed

lemma foldl_perform_keeps_flag:
  "flag m s \<Longrightarrow> Stringify \<notin> set ops \<Longrightarrow> flag m (foldl (\<lambda>t x. perform x t) s ops)"
proof (induction ops arbitrary: s)
  case Nil
  then show ?case by simp
next
  case (Cons x ops)
  from Cons.prems have "flag m (perform x s)" by (auto intro: perform_keeps_flag)
  with Cons show ?case by simp
qed

lemma successful_singleton_sets_flag:
  assumes "singleton m" and "fst (call m v s) = Inr ()"
  shows "flag m (snd (call m v s))"
proof (cases m s rule: call_cases)
  case dup
  with assms(2) show ?thesis by (simp add: call_duplicate_error)
next
  case low
  with assms(2) show ?thesis by (simp add: call_order_error)
next
  case ok
  with assms(1) show ?thesis
    by (simp add: call_appends flag_set_flag del: call.simps)
qed

lemma non_singleton_never_duplicate_error:
  assumes "\<not> singleton m"
  shows "fst (call m v s) \<noteq>
    Inl (Error ''Element, id and pseudo-element should not occur more then one time inside the selector'')"
proof (cases m s rule: call_cases)
  case dup
  with assms show ?thesis by (simp add: flag_only_singleton)
next
  case low
  then show ?thesis by (simp add: call_order_error del: call.simps)
next
  case ok
  then show ?thesis by (simp add: call_appends del: call.simps)
qed

text \<open>
  C2: once element, id or pseudoElement has succeeded on a builder (in any state \<open>s\<close>),
  and whatever fragment calls and calls of add follow (\<open>ops\<close>, thrown or not, but no
  render), calling the same method again throws the error with the message "Element, id
  and pseudo-element should not occur more then one time inside the selector" and leaves
  the whole state of the builder as it was. class, attr and pseudoClass never throw that
  error, in any state.
\<close>

theorem C2_second_singleton_call_rejected:
  "(singleton m \<and> fst (call m v s) = Inr () \<and> Stringify \<notin> set ops \<longrightarrow>
      (let s2 = foldl (\<lambda>t x. perform x t) (snd (call m v s)) ops in
       call m w s2 =
         (Inl (Error ''Element, id and pseudo-element should not occur more then one time inside the selector''), s2)))
   \<and> (\<not> singleton m \<longrightarrow>
        fst (call m v s) \<noteq>
          Inl (Error ''Element, id and pseudo-element should not occur more then one time inside the selector''))"
proof (intro conjI impI)
  assume a: "singleton m \<and> fst (call m v s) = Inr () \<and> Stringify \<notin> set ops"
  then have "flag m (snd (call m v s))"
    by (simp add: successful_singleton_sets_flag del: call.simps)
  with a have "flag m (foldl (\<lambda>t x. perform x t) (snd (call m v s)) ops)"
    by (simp add: foldl_perform_keeps_flag del: call.simps)
  then show "let s2 = foldl (\<lambda>t x. perform x t) (snd (call m v s)) ops in
       call m w s2 =
         (Inl (Error ''Element, id and pseudo-element should not occur more then one time inside the selector''), s2)"
    by (simp add: Let_def call_duplicate_error del: call.simps)
next
  assume "\<not> singleton m"
  then show "fst (call m v s) \<noteq>
          Inl (Error ''Element, id and pseudo-element should not occur more then one time inside the selector'')"
    by (rule non_singleton_never_duplicate_error)
qed

theorem C2_witness:
  "singleton MId \<and> fst (call MId ''main'' constructor) = Inr ()
   \<and> Stringify \<notin> set [Call MClass ''x'', Call MElement ''div'']
   \<and> call MId ''other''
        \<lparr>selectors = [''#main'', ''.x''], isIdExist = True, isElExist = False,
         isPseudoElExist = False, selectorsTypes = [10, 20]\<rparr> =
       (Inl (Error ''Element, id and pseudo-element should not occur more then one time inside the selector''),
        \<lparr>selectors = [''#main'', ''.x''], isIdExist = True, isElExist = False,
         isPseudoElExist = False, selectorsTypes = [10, 20]\<rparr>)
   \<and> \<not> singleton MClass
   \<and> fst (call MClass ''x'' constructor) \<noteq> Inl (Error ''Element, id and pseudo-element should not occur more then one time inside the selector'')"
proof -
  have run: "foldl (\<lambda>t x. perform x t) (snd (call MId ''main'' constructor))
      [Call MClass ''x'', Call MElement ''div''] =
    \<lparr>selectors = [''#main'', ''.x''], isIdExist = True, isElExist = False,
     isPseudoElExist = False, selectorsTypes = [10, 20]\<rparr>"
    by (simp add: constructor_def id_sel_def class_sel_def element_def add_def
        isRightOrder_def)
  have ok: "fst (call MId ''main'' constructor) = Inr ()"
    by (simp add: constructor_def id_sel_def add_def isRightOrder_def)
  show ?thesis
    using C2_second_singleton_call_rejected
        [of MId "''main''" constructor "[Call MClass ''x'', Call MElement ''div'']" "''other''"]
      C2_second_singleton_call_rejected [of MClass "''x''" constructor]
    by (simp only: run ok Let_def) simp
qed

section \<open>Chains of class, attr and pseudoClass\<close>

lemma chain_non_singleton:
  "\<forall>c\<in>set cs. \<not> singleton (fst c) \<Longrightarrow>
   sorted (map (\<lambda>c. selectorsWeight (kind_of (fst c))) cs) \<Longrightarrow>
   selectorsTypes s = [] \<or>
     (\<forall>c\<in>set cs. last (selectorsTypes s) \<le> selectorsWeight (kind_of (fst c))) \<Longrightarrow>
   chain cs s =
     (Inr (), s\<lparr>selectors := selectors s @ map (\<lambda>c. formatted (fst c) (snd c)) cs,
                selectorsTypes :=
                  selectorsTypes s @ map (\<lambda>c. selectorsWeight (kind_of (fst c))) cs\<rparr>)"
proof (induction cs arbitrary: s)
  case Nil
  then show ?case by simp
next
  case (Cons c cs)
  obtain m v where c: "c = (m, v)" by (cases c)
  let ?s1 = "s\<lparr>selectors := selectors s @ [formatted m v],
                selectorsTypes := selectorsTypes s @ [selectorsWeight (kind_of m)]\<rparr>"
  from Cons.prems(1) c have ns: "\<not> singleton m" by simp
  from Cons.prems(3) c
  have "selectorsTypes s = [] \<or> last (selectorsTypes s) \<le> selectorsWeight (kind_of m)"
    by auto
  with ns have step: "call m v s = (Inr (), ?s1)"
    by (simp add: call_appends flag_only_singleton set_flag_only_singleton del: call.simps)
  from Cons.prems(2) c
  have "\<forall>d\<in>set cs. last (selectorsTypes ?s1) \<le> selectorsWeight (kind_of (fst d))"
    by simp
  with Cons.IH [of ?s1] Cons.prems(1,2)
  have "chain cs ?s1 =
     (Inr (), ?s1\<lparr>selectors := selectors ?s1 @ map (\<lambda>c. formatted (fst c) (snd c)) cs,
                selectorsTypes :=
                  selectorsTypes ?s1 @ map (\<lambda>c. selectorsWeight (kind_of (fst c))) cs\<rparr>)"
    by simp
  with step c show ?case by (simp del: call.simps)
qed

text \<open>
  C3: for every finite sequence \<open>cs\<close> of calls of class, attr and pseudoClass whose ranks
  are non-decreasing, chained on a new builder, no call throws, and stringify on the
  resulting builder returns the concatenation, in call order and with no separator, of
  the formatted fragments (\<open>.v\<close> for class, \<open>[v]\<close> for attr, \<open>:v\<close> for pseudoClass).
\<close>

theorem C3_non_singleton_chain_renders_in_order:
  assumes "set (map fst cs) \<subseteq> {MClass, MAttr, MPseudoClass}"
    and "sorted (map (\<lambda>c. selectorsWeight (kind_of (fst c))) cs)"
  shows "fst (chain cs constructor) = Inr () \<and>
         fst (stringify (snd (chain cs constructor))) =
           concat (map (\<lambda>c. formatted (fst c) (snd c)) cs)"
proof -
  from assms(1) have "\<forall>c\<in>set cs. \<not> singleton (fst c)" by auto
  with assms(2) have "chain cs constructor =
     (Inr (), constructor\<lparr>selectors :=
                  selectors constructor @ map (\<lambda>c. formatted (fst c) (snd c)) cs,
                selectorsTypes :=
                  selectorsTypes constructor
                    @ map (\<lambda>c. selectorsWeight (kind_of (fst c))) cs\<rparr>)"
    by (intro chain_non_singleton) (simp_all add: constructor_def)
  then show ?thesis by (simp add: stringify_def constructor_def)
qed

theorem C3_witness:
  "fst (chain [(MClass, ''a''), (MClass, ''b''), (MAttr, ''x=1''), (MPseudoClass, ''hover'')]
          constructor) = Inr ()
   \<and> fst (stringify (snd (chain
          [(MClass, ''a''), (MClass, ''b''), (MAttr, ''x=1''), (MPseudoClass, ''hover'')]
          constructor)))
       = ''.a.b[x=1]:hover''"
  using C3_non_singleton_chain_renders_in_order
    [of "[(MClass, ''a''), (MClass, ''b''), (MAttr, ''x=1''), (MPseudoClass, ''hover'')]"]
  by simp

section \<open>Rendering\<close>

text \<open>
  C5: stringify returns the concatenation of the fragments and clears the fragments and
  the three flags, but it does not clear the rank sequence, so the instance is not back
  in its initial state. Evaluated on the builder \<^verbatim>\<open>class('a')\<close>: the render returns
  \<open>.a\<close> and leaves the rank sequence \<open>[20]\<close> behind.
\<close>

theorem C5_stringify_keeps_ranks:
  "chain [(MClass, ''a'')] constructor =
     (Inr (), \<lparr>selectors = [''.a''], isIdExist = False, isElExist = False,
               isPseudoElExist = False, selectorsTypes = [20]\<rparr>)
   \<and> stringify \<lparr>selectors = [''.a''], isIdExist = False, isElExist = False,
               isPseudoElExist = False, selectorsTypes = [20]\<rparr> =
     (''.a'', \<lparr>selectors = [], isIdExist = False, isElExist = False,
               isPseudoElExist = False, selectorsTypes = [20]\<rparr>)
   \<and> snd (stringify \<lparr>selectors = [''.a''], isIdExist = False, isElExist = False,
               isPseudoElExist = False, selectorsTypes = [20]\<rparr>) \<noteq> constructor"
  by (simp add: constructor_def class_sel_def add_def isRightOrder_def stringify_def)

text \<open>
  C6: after any call of stringify, a second call of stringify on the same builder, with
  no fragment call in between, returns the empty string, whatever the state of the
  builder was before the first call.
\<close>

theorem C6_stringify_twice_empty:
  "fst (stringify (snd (stringify s))) = ''''"
  by (simp add: stringify_def)

text \<open>
  C9: stringify keeps the rank sequence of every builder as it was before the call. So
  after \<^verbatim>\<open>class('a')\<close> on a new builder and a render, the fragment list is empty and the
  rank sequence is still \<open>[20]\<close>, and \<^verbatim>\<open>element('div')\<close> on that builder throws the
  order error and changes nothing.
\<close>

theorem C9_ranks_survive_render:
  "selectorsTypes (snd (stringify s)) = selectorsTypes s
   \<and> chain [(MClass, ''a'')] constructor =
     (Inr (), \<lparr>selectors = [''.a''], isIdExist = False, isElExist = False,
               isPseudoElExist = False, selectorsTypes = [20]\<rparr>)
   \<and> stringify \<lparr>selectors = [''.a''], isIdExist = False, isElExist = False,
               isPseudoElExist = False, selectorsTypes = [20]\<rparr> =
     (''.a'', \<lparr>selectors = [], isIdExist = False, isElExist = False,
               isPseudoElExist = False, selectorsTypes = [20]\<rparr>)
   \<and> element ''div'' \<lparr>selectors = [], isIdExist = False, isElExist = False,
               isPseudoElExist = False, selectorsTypes = [20]\<rparr> =
     (Inl (Error ''Selector parts should be arranged in the following order: element, id, class, attribute, pseudo-class, pseudo-element''),
      \<lparr>selectors = [], isIdExist = False, isElExist = False,
               isPseudoElExist = False, selectorsTypes = [20]\<rparr>)"
  by (simp add: constructor_def class_sel_def element_def add_def isRightOrder_def stringify_def)

section \<open>combine\<close>

lemma add_on_new:
  "add v k constructor =
     (Inr (), \<lparr>selectors = [v], isIdExist = False, isElExist = False,
               isPseudoElExist = False, selectorsTypes = [selectorsWeight k]\<rparr>)"
  by (simp add: add_appends constructor_def)

lemma combine_eq:
  "combine a c b h =
     (Inr (length h),
      (h[a := snd (stringify (h ! a))])
        [b := snd (stringify ((h[a := snd (stringify (h ! a))]) ! b))]
      @ [\<lparr>selectors =
            [fst (stringify (h ! a)) @ '' '' @ c @ '' '' @
             fst (stringify ((h[a := snd (stringify (h ! a))]) ! b))],
          isIdExist = False, isElExist = False, isPseudoElExist = False,
          selectorsTypes = [0]\<rparr>])"
  by (simp add: combine_def stringify_at_def new_SelectorElem_def invoke_def split_def
      add_on_new)

lemma stringify_reset_twice: "snd (stringify (snd (stringify s))) = snd (stringify s)"
  by (simp add: stringify_def)

lemma combine_reference:
  "fst (combine a c b h) = Inr (length h)" "length (snd (combine a c b h)) = Suc (length h)"
  by (simp_all add: combine_eq)

text \<open>
  The second operand is rendered after the first: when both references are the same
  object, the second render sees the object already reset.
\<close>

lemma combine_new_object:
  assumes "a < length h"
  shows "snd (combine a c b h) ! length h =
     \<lparr>selectors =
        [fst (stringify (h ! a)) @ '' '' @ c @ '' '' @
         fst (stringify (if a = b then snd (stringify (h ! a)) else h ! b))],
      isIdExist = False, isElExist = False, isPseudoElExist = False,
      selectorsTypes = [0]\<rparr>"
  using assms by (simp add: combine_eq nth_append)

lemma combine_operands:
  assumes "a < length h" and "b < length h"
  shows "snd (combine a c b h) ! a = snd (stringify (h ! a))"
    and "snd (combine a c b h) ! b = snd (stringify (h ! b))"
  using assms
  by (simp_all add: combine_eq nth_append nth_list_update stringify_reset_twice)

lemma stringify_at_fst: "fst (stringify_at r h) = fst (stringify (h ! r))"
  by (simp add: stringify_at_def split_def)

lemma stringify_single:
  "fst (stringify \<lparr>selectors = [x], isIdExist = i, isElExist = e, isPseudoElExist = p,
      selectorsTypes = ts\<rparr>) = x"
  by (simp add: stringify_def)

lemma combine_others:
  assumes "d < length h" and "d \<noteq> a" and "d \<noteq> b"
  shows "snd (combine a c b h) ! d = h ! d"
  using assms by (simp add: combine_eq nth_append)

text \<open>
  C4: for all builders \<open>a\<close> and \<open>b\<close> of the store (the same object or two) and every
  combinator \<open>c\<close>, combine returns a new builder, whose stringify yields the rendering of
  \<open>a\<close>, a space, \<open>c\<close>, a space, and the rendering of \<open>b\<close>, where \<open>b\<close> is rendered after
  \<open>a\<close> has been rendered and reset: the concatenation of the fragments of \<open>a\<close>, then
  \<open>c\<close> between two spaces, then the concatenation of the fragments of \<open>b\<close>, or nothing
  when \<open>b\<close> is the object \<open>a\<close>. Both operands are rendered and reset as stringify resets:
  afterwards each has no fragment and no flag set, renders as the empty string, and keeps
  its rank sequence. The new builder is an object of the resulting store, and passed as
  the first or as the second operand of a further combine, with any builder \<open>d\<close> as the
  other operand, it contributes that same string, and \<open>d\<close> contributes its fragments, or
  nothing when \<open>d\<close> is one of the operands already rendered.
\<close>

theorem C4_combine_renders_both_operands:
  assumes "a < length h" and "b < length h" and "d < length h"
  shows "fst (combine a c b h) = Inr (length h)
    \<and> length (snd (combine a c b h)) = Suc (length h)
    \<and> fst (stringify_at (length h) (snd (combine a c b h))) =
        fst (stringify (h ! a)) @ '' '' @ c @ '' '' @
        fst (stringify (if a = b then snd (stringify (h ! a)) else h ! b))
    \<and> fst (stringify_at (length h) (snd (combine a c b h))) =
        concat (selectors (h ! a)) @ '' '' @ c @ '' '' @
        (if a = b then '''' else concat (selectors (h ! b)))
    \<and> snd (combine a c b h) ! a = snd (stringify (h ! a))
    \<and> snd (combine a c b h) ! b = snd (stringify (h ! b))
    \<and> snd (combine a c b h) ! a =
        (h ! a)\<lparr>selectors := [], isIdExist := False, isElExist := False,
          isPseudoElExist := False\<rparr>
    \<and> snd (combine a c b h) ! b =
        (h ! b)\<lparr>selectors := [], isIdExist := False, isElExist := False,
          isPseudoElExist := False\<rparr>
    \<and> selectors (snd (combine a c b h) ! a) = []
    \<and> selectors (snd (combine a c b h) ! b) = []
    \<and> isIdExist (snd (combine a c b h) ! a) = False
    \<and> isElExist (snd (combine a c b h) ! a) = False
    \<and> isPseudoElExist (snd (combine a c b h) ! a) = False
    \<and> isIdExist (snd (combine a c b h) ! b) = False
    \<and> isElExist (snd (combine a c b h) ! b) = False
    \<and> isPseudoElExist (snd (combine a c b h) ! b) = False
    \<and> fst (stringify (snd (combine a c b h) ! a)) = ''''
    \<and> fst (stringify (snd (combine a c b h) ! b)) = ''''
    \<and> selectorsTypes (snd (combine a c b h) ! a) = selectorsTypes (h ! a)
    \<and> selectorsTypes (snd (combine a c b h) ! b) = selectorsTypes (h ! b)
    \<and> fst (stringify_at (Suc (length h))
          (snd (combine (length h) c' d (snd (combine a c b h))))) =
        (fst (stringify (h ! a)) @ '' '' @ c @ '' '' @
         fst (stringify (if a = b then snd (stringify (h ! a)) else h ! b)))
        @ '' '' @ c' @ '' '' @ fst (stringify (snd (combine a c b h) ! d))
    \<and> fst (stringify_at (Suc (length h))
          (snd (combine d c' (length h) (snd (combine a c b h))))) =
        fst (stringify (snd (combine a c b h) ! d)) @ '' '' @ c' @ '' '' @
        (fst (stringify (h ! a)) @ '' '' @ c @ '' '' @
         fst (stringify (if a = b then snd (stringify (h ! a)) else h ! b)))
    \<and> fst (stringify_at (Suc (length h))
          (snd (combine (length h) c' d (snd (combine a c b h))))) =
        (concat (selectors (h ! a)) @ '' '' @ c @ '' '' @
         (if a = b then '''' else concat (selectors (h ! b))))
        @ '' '' @ c' @ '' '' @
        (if d = a \<or> d = b then '''' else concat (selectors (h ! d)))
    \<and> fst (stringify_at (Suc (length h))
          (snd (combine d c' (length h) (snd (combine a c b h))))) =
        (if d = a \<or> d = b then '''' else concat (selectors (h ! d)))
        @ '' '' @ c' @ '' '' @
        (concat (selectors (h ! a)) @ '' '' @ c @ '' '' @
         (if a = b then '''' else concat (selectors (h ! b))))"
proof -
  let ?h = "snd (combine a c b h)"
  let ?str = "fst (stringify (h ! a)) @ '' '' @ c @ '' '' @
        fst (stringify (if a = b then snd (stringify (h ! a)) else h ! b))"
  let ?plain = "concat (selectors (h ! a)) @ '' '' @ c @ '' '' @
        (if a = b then '''' else concat (selectors (h ! b)))"
  have len: "length ?h = Suc (length h)" by (rule combine_reference)
  have one: "fst (stringify_at (length h) ?h) = ?str"
    using assms(1) by (simp only: stringify_at_fst combine_new_object stringify_single)
  have expl: "?str = ?plain" by (simp add: stringify_def)
  have valid: "length h < length ?h" by (simp add: len)
  have "snd (combine (length h) c' d ?h) ! length ?h =
     \<lparr>selectors =
        [fst (stringify (?h ! length h)) @ '' '' @ c' @ '' '' @
         fst (stringify (if length h = d then snd (stringify (?h ! length h)) else ?h ! d))],
      isIdExist = False, isElExist = False, isPseudoElExist = False,
      selectorsTypes = [0]\<rparr>"
    using valid by (rule combine_new_object)
  with assms(3) one have two: "fst (stringify_at (Suc (length h))
          (snd (combine (length h) c' d ?h))) =
        ?str @ '' '' @ c' @ '' '' @ fst (stringify (?h ! d))"
    by (simp add: len stringify_at_fst stringify_single)
  from assms(3) len have "d < length ?h" by simp
  then have "snd (combine d c' (length h) ?h) ! length ?h =
     \<lparr>selectors =
        [fst (stringify (?h ! d)) @ '' '' @ c' @ '' '' @
         fst (stringify (if d = length h then snd (stringify (?h ! d)) else ?h ! length h))],
      isIdExist = False, isElExist = False, isPseudoElExist = False,
      selectorsTypes = [0]\<rparr>"
    by (rule combine_new_object)
  with assms(3) one have three: "fst (stringify_at (Suc (length h))
          (snd (combine d c' (length h) ?h))) =
        fst (stringify (?h ! d)) @ '' '' @ c' @ '' '' @ ?str"
    by (simp add: len stringify_at_fst stringify_single)
  note ops = combine_operands [OF assms(1,2), of c]
  have reset: "?h ! a = (h ! a)\<lparr>selectors := [], isIdExist := False, isElExist := False,
          isPseudoElExist := False\<rparr>"
    "?h ! b = (h ! b)\<lparr>selectors := [], isIdExist := False, isElExist := False,
          isPseudoElExist := False\<rparr>"
    by (simp_all add: ops stringify_def)
  have other: "fst (stringify (?h ! d)) =
      (if d = a \<or> d = b then '''' else concat (selectors (h ! d)))"
  proof (cases "d = a \<or> d = b")
    case True
    then show ?thesis using reset by (auto simp: stringify_def)
  next
    case False
    with assms(3) have "?h ! d = h ! d" by (simp add: combine_others)
    with False show ?thesis by (simp add: stringify_def)
  qed
  have fields: "selectors (?h ! a) = []" "selectors (?h ! b) = []"
    "isIdExist (?h ! a) = False" "isElExist (?h ! a) = False"
    "isPseudoElExist (?h ! a) = False"
    "isIdExist (?h ! b) = False" "isElExist (?h ! b) = False"
    "isPseudoElExist (?h ! b) = False"
    "fst (stringify (?h ! a)) = ''''" "fst (stringify (?h ! b)) = ''''"
    "selectorsTypes (?h ! a) = selectorsTypes (h ! a)"
    "selectorsTypes (?h ! b) = selectorsTypes (h ! b)"
    by (simp_all add: reset stringify_def)
  have two': "fst (stringify_at (Suc (length h)) (snd (combine (length h) c' d ?h))) =
        ?plain @ '' '' @ c' @ '' '' @
        (if d = a \<or> d = b then '''' else concat (selectors (h ! d)))"
    by (simp only: two expl other)
  have three': "fst (stringify_at (Suc (length h)) (snd (combine d c' (length h) ?h))) =
        (if d = a \<or> d = b then '''' else concat (selectors (h ! d)))
        @ '' '' @ c' @ '' '' @ ?plain"
    by (simp only: three expl other)
  have one': "fst (stringify_at (length h) ?h) = ?plain"
    by (simp only: one expl)
  show ?thesis
    by (intro conjI combine_reference one one' ops reset fields two three two' three')
qed

theorem C4_witness:
  "combine 0 ''>'' 1
        [\<lparr>selectors = [''ul'', ''.nav''], isIdExist = False, isElExist = True,
           isPseudoElExist = False, selectorsTypes = [1, 20]\<rparr>,
         \<lparr>selectors = [''li''], isIdExist = False, isElExist = True,
           isPseudoElExist = False, selectorsTypes = [1]\<rparr>,
         \<lparr>selectors = [''a''], isIdExist = False, isElExist = True,
           isPseudoElExist = False, selectorsTypes = [1]\<rparr>] =
     (Inr 3,
        [\<lparr>selectors = [], isIdExist = False, isElExist = False,
           isPseudoElExist = False, selectorsTypes = [1, 20]\<rparr>,
         \<lparr>selectors = [], isIdExist = False, isElExist = False,
           isPseudoElExist = False, selectorsTypes = [1]\<rparr>,
         \<lparr>selectors = [''a''], isIdExist = False, isElExist = True,
           isPseudoElExist = False, selectorsTypes = [1]\<rparr>,
         \<lparr>selectors = [''ul.nav > li''], isIdExist = False, isElExist = False,
           isPseudoElExist = False, selectorsTypes = [0]\<rparr>])
   \<and> fst (stringify_at 3
      (snd (combine 0 ''>'' 1
        [\<lparr>selectors = [''ul'', ''.nav''], isIdExist = False, isElExist = True,
           isPseudoElExist = False, selectorsTypes = [1, 20]\<rparr>,
         \<lparr>selectors = [''li''], isIdExist = False, isElExist = True,
           isPseudoElExist = False, selectorsTypes = [1]\<rparr>,
         \<lparr>selectors = [''a''], isIdExist = False, isElExist = True,
           isPseudoElExist = False, selectorsTypes = [1]\<rparr>]))) = ''ul.nav > li''
   \<and> fst (stringify_at 4
      (snd (combine 3 ''+'' 2 (snd (combine 0 ''>'' 1
        [\<lparr>selectors = [''ul'', ''.nav''], isIdExist = False, isElExist = True,
           isPseudoElExist = False, selectorsTypes = [1, 20]\<rparr>,
         \<lparr>selectors = [''li''], isIdExist = False, isElExist = True,
           isPseudoElExist = False, selectorsTypes = [1]\<rparr>,
         \<lparr>selectors = [''a''], isIdExist = False, isElExist = True,
           isPseudoElExist = False, selectorsTypes = [1]\<rparr>]))))) = ''ul.nav > li + a''
   \<and> combine 0 ''~'' 0
        [\<lparr>selectors = [''ul'', ''.nav''], isIdExist = False, isElExist = True,
           isPseudoElExist = False, selectorsTypes = [1, 20]\<rparr>] =
     (Inr 1,
        [\<lparr>selectors = [], isIdExist = False, isElExist = False,
           isPseudoElExist = False, selectorsTypes = [1, 20]\<rparr>,
         \<lparr>selectors = [''ul.nav ~ ''], isIdExist = False, isElExist = False,
           isPseudoElExist = False, selectorsTypes = [0]\<rparr>])"
  using C4_combine_renders_both_operands
    [of 0 "[\<lparr>selectors = [''ul'', ''.nav''], isIdExist = False, isElExist = True,
           isPseudoElExist = False, selectorsTypes = [1, 20]\<rparr>,
         \<lparr>selectors = [''li''], isIdExist = False, isElExist = True,
           isPseudoElExist = False, selectorsTypes = [1]\<rparr>,
         \<lparr>selectors = [''a''], isIdExist = False, isElExist = True,
           isPseudoElExist = False, selectorsTypes = [1]\<rparr>]" 1 2 "''>''" "''+''"]
    C4_combine_renders_both_operands
    [of 0 "[\<lparr>selectors = [''ul'', ''.nav''], isIdExist = False, isElExist = True,
           isPseudoElExist = False, selectorsTypes = [1, 20]\<rparr>]" 0 0 "''~''" "''+''"]
  by (simp add: stringify_def stringify_at_def combine_eq)

text \<open>
  C7: the nested example of the documentation renders with three spaces between
  \<open>tr:nth-of-type(even)\<close> and \<open>td:nth-of-type(even)\<close>, whatever objects the store
  already holds.
\<close>

theorem C7_nested_example:
  "fst (nested_example h) =
     Inr ''div#main.container.draggable + table#data ~ tr:nth-of-type(even)   td:nth-of-type(even)''"
  by (simp add: nested_example_def and_then_def rendered_def combine_def
      cssSelectorBuilder_element_def new_SelectorElem_def
      invoke_def stringify_at_def stringify_def element_def id_sel_def class_sel_def
      pseudoClass_def add_def isRightOrder_def constructor_def nth_append)

text \<open>
  C8: each entry point of the facade creates a builder and applies the sigil of its kind
  (element: the bare value, id: \<open>#\<close>, class: \<open>.\<close>, attr: \<open>[...]\<close>, pseudoClass: \<open>:\<close>,
  pseudoElement: \<open>::\<close>),
  so rendering the new builder at once returns the formatted value;
  \<^verbatim>\<open>element('a').attr('href$=".png"').pseudoClass('focus').stringify()\<close> returns
  \<^verbatim>\<open>a[href$=".png"]:focus\<close> (the double quote is the character 0x22) and
  \<^verbatim>\<open>id('main').class('container').class('editable').stringify()\<close> returns
  \<^verbatim>\<open>#main.container.editable\<close>.
\<close>

theorem C8_factory_sigils:
  "fst (and_then (cssSelectorBuilder_element v) rendered h) = Inr v
   \<and> fst (and_then (cssSelectorBuilder_id v) rendered h) = Inr (''#'' @ v)
   \<and> fst (and_then (cssSelectorBuilder_class v) rendered h) = Inr (''.'' @ v)
   \<and> fst (and_then (cssSelectorBuilder_attr v) rendered h) = Inr (''['' @ v @ '']'')
   \<and> fst (and_then (cssSelectorBuilder_pseudoClass v) rendered h) = Inr ('':'' @ v)
   \<and> fst (and_then (cssSelectorBuilder_pseudoElement v) rendered h) = Inr (''::'' @ v)
   \<and> fst (png_example h) =
       Inr (''a[href$='' @ [CHR 0x22] @ ''.png'' @ [CHR 0x22] @ '']:focus'')
   \<and> fst (main_example h) = Inr ''#main.container.editable''"
  by (simp add: png_example_def main_example_def and_then_def rendered_def
      cssSelectorBuilder_element_def cssSelectorBuilder_id_def cssSelectorBuilder_class_def
      cssSelectorBuilder_attr_def cssSelectorBuilder_pseudoClass_def
      cssSelectorBuilder_pseudoElement_def pseudoElement_def new_SelectorElem_def
      invoke_def stringify_at_def stringify_def element_def id_sel_def class_sel_def attr_def
      pseudoClass_def add_def isRightOrder_def constructor_def)

section \<open>Chaining onto a combined builder\<close>

text \<open>
  A builder that holds one more fragment in front, recorded with rank 0, answers every
  fragment call as the builder without that fragment does.
\<close>

lemma call_behind_fragment:
  "call m v (s\<lparr>selectors := x # selectors s, selectorsTypes := 0 # selectorsTypes s\<rparr>) =
     (fst (call m v s),
      (snd (call m v s))\<lparr>selectors := x # selectors (snd (call m v s)),
        selectorsTypes := 0 # selectorsTypes (snd (call m v s))\<rparr>)"
proof -
  let ?p = "s\<lparr>selectors := x # selectors s, selectorsTypes := 0 # selectorsTypes s\<rparr>"
  have fl: "flag m ?p = flag m s" by (rule flag_append_fields)
  show ?thesis
  proof (cases m s rule: call_cases)
    case dup
    with fl show ?thesis by (simp add: call_duplicate_error del: call.simps)
  next
    case low
    then have "selectorsTypes ?p \<noteq> []"
      and "selectorsWeight (kind_of m) < last (selectorsTypes ?p)" by simp_all
    with low(1) fl have "call m v ?p =
      (Inl (Error ''Selector parts should be arranged in the following order: element, id, class, attribute, pseudo-class, pseudo-element''), ?p)"
      by (intro call_order_error) simp_all
    with low show ?thesis by (simp add: call_order_error del: call.simps)
  next
    case ok
    then have "selectorsTypes ?p = [] \<or> last (selectorsTypes ?p) \<le> selectorsWeight (kind_of m)"
      by auto
    with ok(1) fl have "call m v ?p =
      (Inr (), set_flag m (?p\<lparr>selectors := selectors ?p @ [formatted m v],
         selectorsTypes := selectorsTypes ?p @ [selectorsWeight (kind_of m)]\<rparr>))"
      by (intro call_appends) simp_all
    with ok show ?thesis by (cases m) (simp_all add: call_appends del: call.simps)
  qed
qed

lemma chain_behind_fragment:
  "chain cs (s\<lparr>selectors := x # selectors s, selectorsTypes := 0 # selectorsTypes s\<rparr>) =
     (fst (chain cs s),
      (snd (chain cs s))\<lparr>selectors := x # selectors (snd (chain cs s)),
        selectorsTypes := 0 # selectorsTypes (snd (chain cs s))\<rparr>)"
proof (induction cs arbitrary: s)
  case Nil
  show ?case by simp
next
  case (Cons c cs)
  obtain m v where c: "c = (m, v)" by (cases c)
  obtain res s1 where r: "call m v s = (res, s1)" by (cases "call m v s")
  with call_behind_fragment [of m v s x]
  have p: "call m v (s\<lparr>selectors := x # selectors s, selectorsTypes := 0 # selectorsTypes s\<rparr>)
      = (res, s1\<lparr>selectors := x # selectors s1, selectorsTypes := 0 # selectorsTypes s1\<rparr>)"
    by simp
  show ?case
  proof (cases res)
    case (Inl e)
    with c r p show ?thesis by (simp del: call.simps)
  next
    case (Inr u)
    with c r p Cons.IH [of s1] show ?thesis by (simp del: call.simps)
  qed
qed

text \<open>
  C10: for all builders \<open>a\<close> and \<open>b\<close> of the store and every combinator \<open>c\<close>, the builder
  returned by combine holds the combined string as its single fragment, recorded with the
  rank of the default kind, which is 0 and at most the rank of every kind, and has no
  flag set. So each of the six fragment methods \<open>m\<close>, called on it with any value \<open>v\<close>,
  returns without an error, and stringify then returns the combined string followed by
  the formatted fragment. More generally every chain \<open>cs\<close> of fragment calls has on the
  combined builder the outcome it has on a new builder, and the render is the combined
  string followed by the render of the new builder.
\<close>

theorem C10_chain_after_combine:
  assumes "a < length h" and "b < length h"
  shows "fst (combine a c b h) = Inr (length h)
    \<and> snd (combine a c b h) ! length h =
        \<lparr>selectors =
           [fst (stringify (h ! a)) @ '' '' @ c @ '' '' @
            fst (stringify (if a = b then snd (stringify (h ! a)) else h ! b))],
         isIdExist = False, isElExist = False, isPseudoElExist = False,
         selectorsTypes = [selectorsWeight Default]\<rparr>
    \<and> selectorsWeight Default = 0
    \<and> selectorsWeight Default \<le> selectorsWeight k
    \<and> fst (invoke (length h) (call m v) (snd (combine a c b h))) = Inr (length h)
    \<and> fst (stringify_at (length h)
          (snd (invoke (length h) (call m v) (snd (combine a c b h))))) =
        (fst (stringify (h ! a)) @ '' '' @ c @ '' '' @
         fst (stringify (if a = b then snd (stringify (h ! a)) else h ! b)))
        @ formatted m v
    \<and> fst (chain cs (snd (combine a c b h) ! length h)) = fst (chain cs constructor)
    \<and> fst (stringify (snd (chain cs (snd (combine a c b h) ! length h)))) =
        (fst (stringify (h ! a)) @ '' '' @ c @ '' '' @
         fst (stringify (if a = b then snd (stringify (h ! a)) else h ! b)))
        @ fst (stringify (snd (chain cs constructor)))"
proof -
  let ?h = "snd (combine a c b h)"
  let ?str = "fst (stringify (h ! a)) @ '' '' @ c @ '' '' @
        fst (stringify (if a = b then snd (stringify (h ! a)) else h ! b))"
  let ?new = "\<lparr>selectors = [?str], isIdExist = False, isElExist = False,
        isPseudoElExist = False, selectorsTypes = [0]\<rparr>"
  have obj: "?h ! length h = ?new"
    using assms(1) by (rule combine_new_object)
  have "\<not> flag m ?new" by (cases m) simp_all
  then have step: "call m v ?new =
      (Inr (), set_flag m (?new\<lparr>selectors := selectors ?new @ [formatted m v],
         selectorsTypes := selectorsTypes ?new @ [selectorsWeight (kind_of m)]\<rparr>))"
    by (rule call_appends) simp
  have valid: "length h < length ?h" by (simp add: combine_reference)
  from step obj have inv: "invoke (length h) (call m v) ?h =
      (Inr (length h), ?h[length h :=
         set_flag m (?new\<lparr>selectors := selectors ?new @ [formatted m v],
           selectorsTypes := selectorsTypes ?new @ [selectorsWeight (kind_of m)]\<rparr>)])"
    by (simp add: invoke_def del: call.simps)
  have one: "fst (stringify_at (length h) (snd (invoke (length h) (call m v) ?h))) =
      ?str @ formatted m v"
    using valid
    by (simp add: inv stringify_at_fst stringify_def set_flag_fields del: call.simps)
  have "?new = constructor\<lparr>selectors := ?str # selectors constructor,
      selectorsTypes := 0 # selectorsTypes constructor\<rparr>"
    by (simp add: constructor_def)
  then have "chain cs ?new =
     (fst (chain cs constructor),
      (snd (chain cs constructor))\<lparr>selectors := ?str # selectors (snd (chain cs constructor)),
        selectorsTypes := 0 # selectorsTypes (snd (chain cs constructor))\<rparr>)"
    by (simp only: chain_behind_fragment)
  then have many: "fst (chain cs ?new) = fst (chain cs constructor)"
    "fst (stringify (snd (chain cs ?new))) = ?str @ fst (stringify (snd (chain cs constructor)))"
    by (simp_all add: stringify_def)
  from inv obj one many show ?thesis
    by (simp add: combine_reference del: call.simps)
qed

theorem C10_witness:
  "fst (stringify_at 2
      (snd (invoke 2 (call MClass ''x'')
        (snd (combine 0 ''~'' 1
          [\<lparr>selectors = [''p'', '':first-child''], isIdExist = False, isElExist = True,
             isPseudoElExist = False, selectorsTypes = [1, 40]\<rparr>,
           \<lparr>selectors = [''#note''], isIdExist = True, isElExist = False,
             isPseudoElExist = False, selectorsTypes = [10]\<rparr>]))))) =
     ''p:first-child ~ #note.x''
   \<and> fst (stringify_at 2
      (snd (invoke 2 (call MElement ''div'')
        (snd (combine 0 ''~'' 1
          [\<lparr>selectors = [''p'', '':first-child''], isIdExist = False, isElExist = True,
             isPseudoElExist = False, selectorsTypes = [1, 40]\<rparr>,
           \<lparr>selectors = [''#note''], isIdExist = True, isElExist = False,
             isPseudoElExist = False, selectorsTypes = [10]\<rparr>]))))) =
     ''p:first-child ~ #notediv''"
  using C10_chain_after_combine
      [of 0 "[\<lparr>selectors = [''p'', '':first-child''], isIdExist = False, isElExist = True,
             isPseudoElExist = False, selectorsTypes = [1, 40]\<rparr>,
           \<lparr>selectors = [''#note''], isIdExist = True, isElExist = False,
             isPseudoElExist = False, selectorsTypes = [10]\<rparr>]" 1 "''~''" Default MClass "''x''"]
    C10_chain_after_combine
      [of 0 "[\<lparr>selectors = [''p'', '':first-child''], isIdExist = False, isElExist = True,
             isPseudoElExist = False, selectorsTypes = [1, 40]\<rparr>,
           \<lparr>selectors = [''#note''], isIdExist = True, isElExist = False,
             isPseudoElExist = False, selectorsTypes = [10]\<rparr>]" 1 "''~''" Default MElement "''div''"]
  by (simp add: stringify_def numeral_2_eq_2)

end
